theory Spec2Isabelle
  imports
    Main
    "HOL-Library.Char_ord"
    "HOL-Library.List_Lexorder"
    "HOL-Library.Product_Lexorder"
begin

section \<open>Characters and errors\<close>

text \<open>
  Python strings are modelled as HOL strings (lists of 8-bit characters); the model is
  about ASCII log text. The exceptions the pipeline can raise are values of
  \<open>error\<close>; a function that can raise returns \<open>error + result\<close>.
\<close>

datatype error = KeyError string | ValueError string | OverflowError | UnboundLocalError

abbreviation NL :: char where
  "NL \<equiv> CHR 0x0A"

text \<open>\<^verbatim>\<open>\d\<close> of the regular expressions, on ASCII text.\<close>

definition is_digit :: "char \<Rightarrow> bool" where
  "is_digit c = (c \<in> set ''0123456789'')"

text \<open>
  \<^verbatim>\<open>str.isspace\<close>, which is also \<^verbatim>\<open>\s\<close> of a str pattern: tab, line feed, vertical
  tab, form feed, carriage return, the separators 0x1C to 0x1F and the space.
\<close>

definition is_space :: "char \<Rightarrow> bool" where
  "is_space c = (c \<in> set [CHR 0x09, NL, CHR 0x0B, CHR 0x0C, CHR 0x0D,
     CHR 0x1C, CHR 0x1D, CHR 0x1E, CHR 0x1F, CHR '' ''])"

section \<open>parse_logs: merging the fragments\<close>

text \<open>
  Lines 42 to 49 of main.py. The input is the list of the fragments' contents in the
  order of \<^verbatim>\<open>log_files\<close> (sorted by the number in the file name).
  \<^verbatim>\<open>
    full_text = ""
    for file in log_files:
        file_content = f.read()
        if full_text and not full_text.endswith("\n"):
            full_text += file_content
        else:
            full_text += "\n" + file_content
  \<close>
\<close>

definition endswith_nl :: "string \<Rightarrow> bool" where
  "endswith_nl s = (s \<noteq> [] \<and> last s = NL)"

definition merge_step :: "string \<Rightarrow> string \<Rightarrow> string" where
  "merge_step full_text file_content =
     (if full_text \<noteq> [] \<and> \<not> endswith_nl full_text
      then full_text @ file_content
      else full_text @ [NL] @ file_content)"

definition merge_fragments :: "string list \<Rightarrow> string" where
  "merge_fragments files = foldl merge_step [] files"

section \<open>parse_logs: entry boundaries and entry spans\<close>

text \<open>
  Lines 56 to 70. The compiled pattern is
  \<^verbatim>\<open>^(\d{4}-\d{2}-\d{2} \d{2}:\d{2}:\d{2}) \| (ORDER|RESULT|TRANSACTION|RESPONSE) \|\<close>
  with \<^verbatim>\<open>re.MULTILINE\<close>. A pattern without repetition is a list of tokens matched one
  after the other; the alternation tries its branches in order, each followed by the
  rest of the pattern.
\<close>

datatype tok = Digit | Lit char

fun match_toks :: "tok list \<Rightarrow> string \<Rightarrow> string option" where
  "match_toks [] s = Some s"
| "match_toks (t # ts) [] = None"
| "match_toks (Digit # ts) (c # cs) = (if is_digit c then match_toks ts cs else None)"
| "match_toks (Lit l # ts) (c # cs) = (if l = c then match_toks ts cs else None)"

definition timestamp_toks :: "tok list" where
  "timestamp_toks =
     [Digit, Digit, Digit, Digit, Lit (CHR ''-''), Digit, Digit, Lit (CHR ''-''), Digit, Digit,
      Lit (CHR '' ''), Digit, Digit, Lit (CHR '':''), Digit, Digit, Lit (CHR '':''), Digit, Digit]"

definition message_types :: "string list" where
  "message_types = [''ORDER'', ''RESULT'', ''TRANSACTION'', ''RESPONSE'']"

definition startswith :: "string \<Rightarrow> string \<Rightarrow> bool" where
  "startswith s p = (take (length p) s = p)"

text \<open>
  The length of the match of the pattern (without its \<^verbatim>\<open>^\<close>) at the start of the
  given text, if it matches there.
\<close>

definition entry_start_match :: "string \<Rightarrow> nat option" where
  "entry_start_match s =
     (case match_toks (timestamp_toks @ map Lit '' | '') s of
        None \<Rightarrow> None
      | Some r \<Rightarrow>
          (case find (\<lambda>t. startswith r (t @ '' |'')) message_types of
             None \<Rightarrow> None
           | Some t \<Rightarrow> Some (length timestamp_toks + 3 + length t + 2)))"

text \<open>
  \<^verbatim>\<open>finditer\<close>: the start positions of the non-overlapping matches, from left to right.
  \<open>pos\<close> is the position of the text that is left, \<open>bol\<close> says whether it is at the start
  of the text or follows a newline (where \<^verbatim>\<open>^\<close> matches), and \<open>skip\<close> counts the
  characters of the previous match that are still to be passed.
\<close>

fun finditer_from :: "nat \<Rightarrow> bool \<Rightarrow> nat \<Rightarrow> string \<Rightarrow> nat list" where
  "finditer_from pos bol skip [] = []"
| "finditer_from pos bol skip (c # cs) =
     (case (if skip = 0 \<and> bol then entry_start_match (c # cs) else None) of
        Some n \<Rightarrow> pos # finditer_from (pos + 1) (c = NL) (n - 1) cs
      | None \<Rightarrow> finditer_from (pos + 1) (c = NL) (skip - 1) cs)"

definition finditer :: "string \<Rightarrow> nat list" where
  "finditer full_text = finditer_from 0 True 0 full_text"

text \<open>The slice \<^verbatim>\<open>s[a:b]\<close> for \<open>0 \<le> a\<close> and \<open>0 \<le> b\<close>, \<^verbatim>\<open>strip()\<close> and \<^verbatim>\<open>replace("\n", " ")\<close>.\<close>

definition slice :: "string \<Rightarrow> nat \<Rightarrow> nat \<Rightarrow> string" where
  "slice s a b = take (b - a) (drop a s)"

definition strip :: "string \<Rightarrow> string" where
  "strip s = rev (dropWhile is_space (rev (dropWhile is_space s)))"

definition replace_nl :: "string \<Rightarrow> string" where
  "replace_nl s = map (\<lambda>c. if c = NL then CHR '' '' else c) s"

text \<open>
  \<^verbatim>\<open>
    entries = []
    for i in range(len(matches)):
        start = matches[i].start()
        end = matches[i + 1].start() if i + 1 < len(matches) else len(full_text)
        entry = full_text[start:end].strip().replace("\n", " ")
        entries.append(entry)
  \<close>
\<close>

definition entry_at :: "string \<Rightarrow> nat list \<Rightarrow> nat \<Rightarrow> string" where
  "entry_at full_text matches i =
     (let start = matches ! i;
          end' = (if i + 1 < length matches then matches ! (i + 1) else length full_text)
      in replace_nl (strip (slice full_text start end')))"

definition entries_of :: "string \<Rightarrow> nat list \<Rightarrow> string list" where
  "entries_of full_text matches =
     foldl (\<lambda>entries i. entries @ [entry_at full_text matches i]) [] [0..<length matches]"

section \<open>parse_logs: fields and rows\<close>

text \<open>
  \<^verbatim>\<open>entry.split(" | ", 3)\<close>: the text is cut at the first occurrences of the separator,
  from left to right, at most \<open>n\<close> times.
\<close>

fun split_bar :: "nat \<Rightarrow> string \<Rightarrow> string list" where
  "split_bar n [] = [[]]"
| "split_bar n (c # cs) =
     (if 0 < n \<and> startswith (c # cs) '' | '' then [] # split_bar (n - 1) (drop 2 cs)
      else (case split_bar n cs of f # fs \<Rightarrow> (c # f) # fs | [] \<Rightarrow> [[c]]))"

text \<open>
  \<^verbatim>\<open>
    records = []
    for entry in entries:
        parts = entry.split(" | ", 3)
        if len(parts) == 4:
            records.append(parts)
        else:
            logger.info(f"[WARN] Incomplete log entry skipped: {entry[:50]}...")
  \<close>
  The state of the loop is the list of records and the diagnostics logged so far.
\<close>

definition records_step :: "string list list \<times> string list \<Rightarrow> string \<Rightarrow> string list list \<times> string list" where
  "records_step st entry =
     (let parts = split_bar 3 entry in
      if length parts = 4 then (fst st @ [parts], snd st)
      else (fst st, snd st @ [''[WARN] Incomplete log entry skipped: '' @ take 50 entry @ ''...'']))"

definition records_of :: "string list \<Rightarrow> string list list \<times> string list" where
  "records_of entries = foldl records_step ([], []) entries"

section \<open>Timestamps\<close>

text \<open>
  A \<^verbatim>\<open>datetime64[ns]\<close> value is modelled by its calendar fields: year, month, day,
  hour, minute, second and nanosecond. The order of the product type is lexicographic,
  which is the order in time on well-formed values. A null (\<^verbatim>\<open>NaT\<close>) is \<open>None\<close>.
\<close>

type_synonym datetime = "nat \<times> nat \<times> nat \<times> nat \<times> nat \<times> nat \<times> nat"

definition dt_year :: "datetime \<Rightarrow> nat" where
  "dt_year t = fst t"

definition dt_month :: "datetime \<Rightarrow> nat" where
  "dt_month t = fst (snd t)"

definition dt_day :: "datetime \<Rightarrow> nat" where
  "dt_day t = fst (snd (snd t))"

definition is_leap :: "nat \<Rightarrow> bool" where
  "is_leap y = (y mod 4 = 0 \<and> (y mod 100 \<noteq> 0 \<or> y mod 400 = 0))"

definition days_in_month :: "nat \<Rightarrow> nat \<Rightarrow> nat" where
  "days_in_month y m =
     (if m = 2 then (if is_leap y then 29 else 28)
      else if m \<in> {4, 6, 9, 11} then 30 else 31)"

fun digit_val :: "char \<Rightarrow> nat" where
  "digit_val c = of_char c - 48"

definition int_of_digits :: "string \<Rightarrow> nat" where
  "int_of_digits ds = foldl (\<lambda>n c. 10 * n + digit_val c) 0 ds"

text \<open>
  \<^verbatim>\<open>pd.to_datetime(df["timestamp"], errors="coerce")\<close> on the first field of a record,
  which has the form \<^verbatim>\<open>YYYY-MM-DD HH:MM:SS\<close>: a string that is not a date and time of
  the calendar, or lies outside the range of \<^verbatim>\<open>datetime64[ns]\<close>
  (1677-09-21 00:12:43.145224193 to 2262-04-11 23:47:16.854775807), becomes null.
\<close>

definition to_datetime :: "string \<Rightarrow> datetime option" where
  "to_datetime s =
     (if match_toks timestamp_toks s \<noteq> Some [] then None
      else
        let y = int_of_digits (slice s 0 4); m = int_of_digits (slice s 5 7);
            d = int_of_digits (slice s 8 10); hh = int_of_digits (slice s 11 13);
            mm = int_of_digits (slice s 14 16); ss = int_of_digits (slice s 17 19);
            t = (y, m, d, hh, mm, ss, 0)
        in if 1 \<le> m \<and> m \<le> 12 \<and> 1 \<le> d \<and> d \<le> days_in_month y m
              \<and> hh < 24 \<and> mm < 60 \<and> ss < 60
              \<and> (1677, 9, 21, 0, 12, 44, 0) \<le> t \<and> t \<le> (2262, 4, 11, 23, 47, 16, 0)
           then Some t else None)"

record log_row =
  timestamp :: "datetime option"
  message_type :: string
  trace_id :: string
  details :: string

text \<open>
  \<^verbatim>\<open>pd.DataFrame(records, columns=["timestamp", "message_type", "trace_id", "details"])\<close>
  and the conversion of the first column. Every record has four fields.
\<close>

definition row_of :: "string list \<Rightarrow> log_row" where
  "row_of parts =
     \<lparr>timestamp = to_datetime (parts ! 0), message_type = parts ! 1,
      trace_id = parts ! 2, details = parts ! 3\<rparr>"

text \<open>
  \<open>parse_logs\<close> from the contents of the fragments on: the data frame as a list of rows,
  and the diagnostics of the incomplete entries.
\<close>

definition entries_of_text :: "string \<Rightarrow> string list" where
  "entries_of_text full_text = entries_of full_text (finditer full_text)"

definition parse_logs :: "string list \<Rightarrow> log_row list \<times> string list" where
  "parse_logs files =
     (let full_text = merge_fragments files;
          entries = entries_of_text full_text;
          (records, diagnostics) = records_of entries
      in (map row_of records, diagnostics))"

section \<open>extract_transactions\<close>

text \<open>
  Line 183: \<^verbatim>\<open>orders["details"].str.extract(r"(buy|sell)\s+(\S+)\s+(\d+)")\<close> takes the
  groups of the first match, searching from the left. At a given start the match is
  unique: a greedy run that gave a character back would leave the next part of the
  pattern on a character it cannot match, so each run is a maximal run.
\<close>

definition order_match_at :: "string \<Rightarrow> (string \<times> string \<times> string) option" where
  "order_match_at s =
     (case (if startswith s ''buy'' then Some ''buy''
            else if startswith s ''sell'' then Some ''sell'' else None) of
        None \<Rightarrow> None
      | Some a \<Rightarrow>
          let r1 = drop (length a) s;
              r2 = dropWhile is_space r1;
              k = takeWhile (\<lambda>c. \<not> is_space c) r2;
              r3 = dropWhile (\<lambda>c. \<not> is_space c) r2;
              r4 = dropWhile is_space r3;
              q = takeWhile is_digit r4
          in if takeWhile is_space r1 \<noteq> [] \<and> k \<noteq> [] \<and> takeWhile is_space r3 \<noteq> [] \<and> q \<noteq> []
             then Some (a, k, q) else None)"

fun order_search :: "string \<Rightarrow> (string \<times> string \<times> string) option" where
  "order_search [] = order_match_at []"
| "order_search (c # cs) =
     (case order_match_at (c # cs) of Some g \<Rightarrow> Some g | None \<Rightarrow> order_search cs)"

record order_row = log_row +
  action :: string
  sku :: string
  quantity :: int

record tx_row = order_row +
  transaction_amount :: string

text \<open>
  Lines 180 to 192. The conversion at line 180 finds the column already converted by
  \<open>parse_logs\<close>. \<^verbatim>\<open>dropna\<close> removes the rows whose details did not match;
  \<^verbatim>\<open>astype(int)\<close> converts the digits to \<^verbatim>\<open>int64\<close> and raises OverflowError on a value
  above \<open>2^63 - 1\<close>; the quantity of a buy is then multiplied by \<open>-1\<close>.
\<close>

definition int64_max :: int where
  "int64_max = 9223372036854775807"

definition astype_int :: "string \<Rightarrow> error + int" where
  "astype_int q =
     (if int (int_of_digits q) \<le> int64_max then Inr (int (int_of_digits q)) else Inl OverflowError)"

definition order_of :: "log_row \<Rightarrow> string \<times> string \<times> string \<Rightarrow> order_row" where
  "order_of r g =
     (case g of (a, k, q) \<Rightarrow>
        \<lparr>timestamp = timestamp r, message_type = message_type r, trace_id = trace_id r,
         details = details r, action = a, sku = k,
         quantity = (if a = ''buy'' then int (int_of_digits q) * (-1) else int (int_of_digits q))\<rparr>)"

definition matched_orders :: "log_row list \<Rightarrow> (log_row \<times> string \<times> string \<times> string) list" where
  "matched_orders logs =
     concat (map (\<lambda>r. case order_search (details r) of None \<Rightarrow> [] | Some g \<Rightarrow> [(r, g)])
       (filter (\<lambda>r. message_type r = ''ORDER'') logs))"

definition extract_orders :: "log_row list \<Rightarrow> error + order_row list" where
  "extract_orders logs =
     (let kept = matched_orders logs in
      if list_all (\<lambda>(r, a, k, q). astype_int q \<noteq> Inl OverflowError) kept
      then Inr (map (\<lambda>(r, g). order_of r g) kept)
      else Inl OverflowError)"

text \<open>
  Lines 194 to 198. The inner merge on \<^verbatim>\<open>trace_id\<close> pairs every order with every
  settlement of the same trace id, in the order of the orders.
\<close>

definition settlements :: "log_row list \<Rightarrow> (string \<times> string) list" where
  "settlements logs =
     map (\<lambda>r. (trace_id r, details r)) (filter (\<lambda>r. message_type r = ''TRANSACTION'') logs)"

definition tx_of :: "order_row \<Rightarrow> string \<Rightarrow> tx_row" where
  "tx_of r amount =
     \<lparr>timestamp = timestamp r, message_type = message_type r, trace_id = trace_id r,
      details = details r, action = action r, sku = sku r, quantity = quantity r,
      transaction_amount = amount\<rparr>"

definition inner_merge :: "order_row list \<Rightarrow> (string \<times> string) list \<Rightarrow> tx_row list" where
  "inner_merge orders transactions =
     concat (map (\<lambda>r. map (\<lambda>t. tx_of r (snd t))
       (filter (\<lambda>t. fst t = trace_id r) transactions)) orders)"

definition extract_transactions :: "log_row list \<Rightarrow> error + tx_row list" where
  "extract_transactions logs =
     (case extract_orders logs of
        Inl e \<Rightarrow> Inl e
      | Inr orders \<Rightarrow> Inr (inner_merge orders (settlements logs)))"

section \<open>read_skus and read_market_prices\<close>

text \<open>
  A data frame is a list of rows; \<^verbatim>\<open>pd.DataFrame()\<close>, the frame with no column, is
  \<open>EmptyFrame\<close>. The decoding of the files is outside the model: a catalog file is given
  by its rows (the key \<^verbatim>\<open>code\<close>, renamed \<^verbatim>\<open>sku\<close> at line 117, and the other
  columns as one value, among them the \<^verbatim>\<open>id\<close> that line 249 drops), a price file by
  its rows, with the column \<^verbatim>\<open>timestamp\<close> already of the type \<^verbatim>\<open>datetime64[ns]\<close>.
\<close>

datatype 'r frame = EmptyFrame | Frame "'r list"

record 'm catalog_row =
  code :: string
  attrs :: 'm

datatype 'm sku_source = NoFile | BadJson | Json "'m catalog_row list"

text \<open>
  Lines 100 to 135. A file that does not decode is logged and \<^verbatim>\<open>sku_data\<close> is then
  used unbound. \<^verbatim>\<open>json_normalize\<close> of an empty list is a frame with no column.
\<close>

definition read_skus :: "'m sku_source \<Rightarrow> error + 'm catalog_row frame" where
  "read_skus src =
     (case src of
        NoFile \<Rightarrow> Inr EmptyFrame
      | BadJson \<Rightarrow> Inl UnboundLocalError
      | Json rows \<Rightarrow> Inr (if rows = [] then EmptyFrame else Frame rows))"

record 'p quote_row =
  quote_id :: "string option"
  quote_time :: "datetime option"
  price_usd :: "'p option"

record 'p price_row = "'p quote_row" +
  price_sku :: "string option"

text \<open>
  Line 164: \<^verbatim>\<open>str.extract(r"^(.*?)-\d+$")\<close>. The lazy group grows from the left until the
  rest is a hyphen, digits and the end; \<^verbatim>\<open>.\<close> does not match a newline, and \<^verbatim>\<open>$\<close>
  matches at the end and before a newline that ends the text.
\<close>

definition hyphen_digits_end :: "string \<Rightarrow> bool" where
  "hyphen_digits_end s =
     (case s of
        [] \<Rightarrow> False
      | c # cs \<Rightarrow> c = CHR ''-'' \<and> takeWhile is_digit cs \<noteq> []
          \<and> (dropWhile is_digit cs = [] \<or> dropWhile is_digit cs = [NL]))"

fun lazy_prefix :: "string \<Rightarrow> string option" where
  "lazy_prefix [] = None"
| "lazy_prefix (c # cs) =
     (if hyphen_digits_end (c # cs) then Some []
      else if c = NL then None
      else map_option ((#) c) (lazy_prefix cs))"

definition derive_sku :: "string option \<Rightarrow> string option" where
  "derive_sku q = (case q of None \<Rightarrow> None | Some s \<Rightarrow> lazy_prefix s)"

definition add_sku :: "'p quote_row \<Rightarrow> 'p price_row" where
  "add_sku r =
     \<lparr>quote_id = quote_id r, quote_time = quote_time r, price_usd = price_usd r,
      price_sku = derive_sku (quote_id r)\<rparr>"

text \<open>
  Lines 149 to 167. A file that cannot be read is \<open>None\<close>; \<^verbatim>\<open>pd.concat\<close> of no file at
  all raises as well, and the handler returns \<^verbatim>\<open>pd.DataFrame()\<close>.
\<close>

definition read_market_prices :: "'p quote_row list option list \<Rightarrow> 'p price_row frame" where
  "read_market_prices all_files =
     (if all_files = [] \<or> None \<in> set all_files then EmptyFrame
      else Frame (map add_sku (concat (map the all_files))))"

section \<open>enrich_transactions\<close>

record 'm joined_row =
  tx :: tx_row
  metadata :: "'m option"

record ('m, 'p) priced_row = "'m joined_row" +
  price_time :: "datetime option"
  market_price :: "'p option"

record ('m, 'p) enriched_row = "('m, 'p) priced_row" +
  transaction_value :: "'p option"
  year :: nat
  quarter :: "nat \<times> nat"
  week :: nat

text \<open>
  Line 215: the left merge on \<^verbatim>\<open>sku\<close>. A transaction with no catalog row keeps one row
  with null metadata; a catalog frame without the column \<^verbatim>\<open>sku\<close> raises KeyError.
\<close>

definition left_merge :: "tx_row list \<Rightarrow> 'm catalog_row list \<Rightarrow> 'm joined_row list" where
  "left_merge transactions catalog =
     concat (map (\<lambda>t.
       (let cs = filter (\<lambda>c. code c = sku t) catalog in
        if cs = [] then [\<lparr>tx = t, metadata = None\<rparr>]
        else map (\<lambda>c. \<lparr>tx = t, metadata = Some (attrs c)\<rparr>) cs)) transactions)"

text \<open>
  \<^verbatim>\<open>sort_values\<close> ascending puts the nulls last: a null is mapped above every value.
  The sorts are modelled by the stable \<open>sort_key\<close>; the sort on one column at lines 231
  and 232 is not stable in pandas, and no property below depends on the order of rows with
  equal keys.
\<close>

definition na_last :: "'a option \<Rightarrow> 'a \<Rightarrow> nat \<times> 'a" where
  "na_last v d = (case v of None \<Rightarrow> (1, d) | Some x \<Rightarrow> (0, x))"

definition epoch :: datetime where
  "epoch = (0, 0, 0, 0, 0, 0, 0)"

definition time_key :: "datetime option \<Rightarrow> nat \<times> datetime" where
  "time_key v = na_last v epoch"

text \<open>
  \<^verbatim>\<open>pd.merge_asof(left, right, by="sku", left_on="timestamp", right_on="price_time",
  direction="backward", allow_exact_matches=True)\<close>: the keys must be free of nulls and
  sorted; every row of \<open>left\<close> gets the last row of \<open>right\<close> with the same \<^verbatim>\<open>sku\<close>
  whose \<^verbatim>\<open>price_time\<close> is less than or equal to the row's \<^verbatim>\<open>timestamp\<close>, if there is one.
\<close>

definition eligible :: "string \<Rightarrow> datetime \<Rightarrow> 'p price_row \<Rightarrow> bool" where
  "eligible k t p =
     (price_sku p = Some k \<and> (case quote_time p of None \<Rightarrow> False | Some pt \<Rightarrow> pt \<le> t))"

definition asof_backward :: "'p price_row list \<Rightarrow> string \<Rightarrow> datetime \<Rightarrow> 'p price_row option" where
  "asof_backward right k t = find (eligible k t) (rev right)"

definition attach_price :: "'m joined_row \<Rightarrow> 'p price_row option \<Rightarrow> ('m, 'p) priced_row" where
  "attach_price r m =
     (case m of
        None \<Rightarrow> \<lparr>tx = tx r, metadata = metadata r, price_time = None, market_price = None\<rparr>
      | Some p \<Rightarrow> \<lparr>tx = tx r, metadata = metadata r, price_time = quote_time p,
          market_price = price_usd p\<rparr>)"

definition merge_asof :: "'m joined_row list \<Rightarrow> 'p price_row list \<Rightarrow> error + ('m, 'p) priced_row list" where
  "merge_asof left right =
     (if \<exists>r \<in> set left. timestamp (tx r) = None
      then Inl (ValueError ''Merge keys contain null values on left side'')
      else if \<not> sorted (map (\<lambda>r. the (timestamp (tx r))) left)
      then Inl (ValueError ''left keys must be sorted'')
      else if \<exists>p \<in> set right. quote_time p = None
      then Inl (ValueError ''Merge keys contain null values on right side'')
      else if \<not> sorted (map (\<lambda>p. the (quote_time p)) right)
      then Inl (ValueError ''right keys must be sorted'')
      else Inr (map (\<lambda>r. attach_price r
             (asof_backward right (sku (tx r)) (the (timestamp (tx r))))) left))"

text \<open>
  Line 241: \<^verbatim>\<open>sort_values(["trace_id", "price_time"], ascending=[True, False])\<close>, a stable
  sort by \<^verbatim>\<open>trace_id\<close> ascending, then \<^verbatim>\<open>price_time\<close> descending with the nulls last.
\<close>

definition desc_na_last :: "datetime option \<Rightarrow> datetime option \<Rightarrow> bool" where
  "desc_na_last a b =
     (case b of None \<Rightarrow> True | Some tb \<Rightarrow> (case a of None \<Rightarrow> False | Some ta \<Rightarrow> tb \<le> ta))"

definition final_le :: "('m, 'p) priced_row \<Rightarrow> ('m, 'p) priced_row \<Rightarrow> bool" where
  "final_le a b =
     (trace_id (tx a) < trace_id (tx b)
      \<or> (trace_id (tx a) = trace_id (tx b) \<and> desc_na_last (price_time a) (price_time b)))"

fun insort_by :: "('a \<Rightarrow> 'a \<Rightarrow> bool) \<Rightarrow> 'a \<Rightarrow> 'a list \<Rightarrow> 'a list" where
  "insort_by le x [] = [x]"
| "insort_by le x (y # ys) = (if le x y then x # y # ys else y # insort_by le x ys)"

definition sort_by :: "('a \<Rightarrow> 'a \<Rightarrow> bool) \<Rightarrow> 'a list \<Rightarrow> 'a list" where
  "sort_by le xs = foldr (insort_by le) xs []"

text \<open>
  Lines 243 to 246. The calendar: the proleptic Gregorian ordinal of a date (day 1 is
  0001-01-01, a Monday), and the ISO 8601 week, which is the week of the year that holds
  the Thursday of the date's week.
\<close>

definition days_before_year :: "nat \<Rightarrow> nat" where
  "days_before_year y = 365 * (y - 1) + (y - 1) div 4 - (y - 1) div 100 + (y - 1) div 400"

definition days_before_month :: "nat \<Rightarrow> nat \<Rightarrow> nat" where
  "days_before_month y m =
     [0, 31, 59, 90, 120, 151, 181, 212, 243, 273, 304, 334] ! (m - 1)
     + (if 2 < m \<and> is_leap y then 1 else 0)"

definition ymd2ord :: "nat \<Rightarrow> nat \<Rightarrow> nat \<Rightarrow> nat" where
  "ymd2ord y m d = days_before_year y + days_before_month y m + d"

definition weekday :: "nat \<Rightarrow> nat" where
  "weekday ord = (ord + 6) mod 7"

definition iso_week :: "datetime \<Rightarrow> nat" where
  "iso_week t =
     (let y = dt_year t;
          ord = ymd2ord y (dt_month t) (dt_day t);
          thursday = ord + 3 - weekday ord;
          iso_year = (if thursday < ymd2ord y 1 1 then y - 1
                      else if ymd2ord (y + 1) 1 1 \<le> thursday then y + 1 else y)
      in (thursday - ymd2ord iso_year 1 1) div 7 + 1)"

definition to_period_Q :: "datetime \<Rightarrow> nat \<times> nat" where
  "to_period_Q t = (dt_year t, (dt_month t - 1) div 3 + 1)"

fun show_nat :: "nat \<Rightarrow> string" where
  "show_nat n =
     (if n < 10 then [char_of (48 + n)] else show_nat (n div 10) @ [char_of (48 + n mod 10)])"

definition quarter_label :: "nat \<times> nat \<Rightarrow> string" where
  "quarter_label p = show_nat (fst p) @ ''Q'' @ show_nat (snd p)"

text \<open>
  The product of the \<^verbatim>\<open>int64\<close> quantity and the \<^verbatim>\<open>float64\<close> price is the parameter
  \<open>mul\<close>; a null price gives a null value.
\<close>

definition derive :: "(int \<Rightarrow> 'p \<Rightarrow> 'p) \<Rightarrow> ('m, 'p) priced_row \<Rightarrow> ('m, 'p) enriched_row" where
  "derive mul r =
     (let t = the (timestamp (tx r)) in
      \<lparr>tx = tx r, metadata = metadata r, price_time = price_time r, market_price = market_price r,
       transaction_value = map_option (mul (quantity (tx r))) (market_price r),
       year = dt_year t, quarter = to_period_Q t, week = iso_week t\<rparr>)"

text \<open>
  Lines 215 to 257. The three columns dropped at line 247 stay in the rows of the model.
\<close>

definition enrich_transactions ::
  "(int \<Rightarrow> 'p \<Rightarrow> 'p) \<Rightarrow> tx_row list \<Rightarrow> 'm catalog_row frame \<Rightarrow> 'p price_row frame
     \<Rightarrow> error + ('m, 'p) enriched_row list" where
  "enrich_transactions mul transactions sku_df prices =
     (case sku_df of
        EmptyFrame \<Rightarrow> Inl (KeyError ''sku'')
      | Frame catalog \<Rightarrow>
          let enriched = left_merge transactions catalog;
              enriched = sort_key (\<lambda>r. (sku (tx r), time_key (timestamp (tx r)))) enriched
          in (case prices of
                EmptyFrame \<Rightarrow> Inl (KeyError ''sku'')
              | Frame ps \<Rightarrow>
                  let ps = sort_key (\<lambda>p. (na_last (price_sku p) [], time_key (quote_time p))) ps
                  in (case merge_asof (sort_key (\<lambda>r. time_key (timestamp (tx r))) enriched)
                             (sort_key (\<lambda>p. time_key (quote_time p)) ps) of
                        Inl e \<Rightarrow> Inl e
                      | Inr enriched \<Rightarrow> Inr (map (derive mul) (sort_by final_le enriched)))))"

section \<open>The pipeline\<close>

text \<open>Lines 405 to 417: the stages in sequence; an exception of a stage ends the run.\<close>

definition pipeline ::
  "(int \<Rightarrow> 'p \<Rightarrow> 'p) \<Rightarrow> string list \<Rightarrow> 'm sku_source \<Rightarrow> 'p quote_row list option list
     \<Rightarrow> error + ('m, 'p) enriched_row list" where
  "pipeline mul files src price_files =
     (let logs = fst (parse_logs files) in
      case read_skus src of
        Inl e \<Rightarrow> Inl e
      | Inr sku_df \<Rightarrow>
          let prices = read_market_prices price_files in
          (case extract_transactions logs of
             Inl e \<Rightarrow> Inl e
           | Inr transactions \<Rightarrow> enrich_transactions mul transactions sku_df prices))"

section \<open>Sample inputs\<close>

text \<open>The two log entries of the specification's scenario, and a log with a wrapped entry.\<close>

definition scenario_order :: string where
  "scenario_order = ''2024-03-01 10:00:00 | ORDER | T1 | buy WINE-OPU-001 5''"

definition scenario_settlement :: string where
  "scenario_settlement = ''2024-03-01 10:01:00 | TRANSACTION | T1 | 120.50''"

definition wrapped_log :: string where
  "wrapped_log = scenario_order @ [NL] @ ''  wrapped'' @ [NL] @ scenario_settlement @ [NL]"

definition incomplete_log :: "string list" where
  "incomplete_log =
     [scenario_order @ [NL], ''2024-03-01 10:00:30 | ORDER |'' @ [NL], scenario_settlement @ [NL]]"

text \<open>
  The parsed rows, the prices, the catalog and the enriched row of the scenario, and a log
  with two orders and three settlements of one trace id.
\<close>

definition scenario_rows :: "log_row list" where
  "scenario_rows =
     [\<lparr>timestamp = Some (2024, 3, 1, 10, 0, 0, 0), message_type = ''ORDER'', trace_id = ''T1'',
       details = ''buy WINE-OPU-001 5''\<rparr>,
      \<lparr>timestamp = Some (2024, 3, 1, 10, 1, 0, 0), message_type = ''TRANSACTION'', trace_id = ''T1'',
       details = ''120.50''\<rparr>]"

definition scenario_order_row :: order_row where
  "scenario_order_row =
     \<lparr>timestamp = Some (2024, 3, 1, 10, 0, 0, 0), message_type = ''ORDER'', trace_id = ''T1'',
      details = ''buy WINE-OPU-001 5'', action = ''buy'', sku = ''WINE-OPU-001'', quantity = - 5\<rparr>"

definition scenario_tx :: tx_row where
  "scenario_tx =
     \<lparr>timestamp = Some (2024, 3, 1, 10, 0, 0, 0), message_type = ''ORDER'', trace_id = ''T1'',
      details = ''buy WINE-OPU-001 5'', action = ''buy'', sku = ''WINE-OPU-001'', quantity = - 5,
      transaction_amount = ''120.50''\<rparr>"

definition scenario_quotes :: "int quote_row list" where
  "scenario_quotes =
     [\<lparr>quote_id = Some ''WINE-OPU-001-1'', quote_time = Some (2024, 3, 1, 9, 0, 0, 0),
       price_usd = Some 24\<rparr>,
      \<lparr>quote_id = Some ''WINE-OPU-001-2'', quote_time = Some (2024, 3, 1, 11, 0, 0, 0),
       price_usd = Some 25\<rparr>]"

definition scenario_prices :: "int price_row list" where
  "scenario_prices =
     [\<lparr>quote_id = Some ''WINE-OPU-001-1'', quote_time = Some (2024, 3, 1, 9, 0, 0, 0),
       price_usd = Some 24, price_sku = Some ''WINE-OPU-001''\<rparr>,
      \<lparr>quote_id = Some ''WINE-OPU-001-2'', quote_time = Some (2024, 3, 1, 11, 0, 0, 0),
       price_usd = Some 25, price_sku = Some ''WINE-OPU-001''\<rparr>]"

definition scenario_catalog :: "string catalog_row list" where
  "scenario_catalog = [\<lparr>code = ''WINE-OPU-001'', attrs = ''Opus One''\<rparr>]"

definition scenario_enriched :: "(string, int) enriched_row" where
  "scenario_enriched =
     \<lparr>tx = scenario_tx, metadata = Some ''Opus One'',
      price_time = Some (2024, 3, 1, 9, 0, 0, 0), market_price = Some 24,
      transaction_value = Some (- 120), year = 2024, quarter = (2024, 1), week = 9\<rparr>"

definition duplicate_rows :: "log_row list" where
  "duplicate_rows =
     [\<lparr>timestamp = Some (2024, 3, 1, 10, 0, 0, 0), message_type = ''ORDER'', trace_id = ''T1'',
       details = ''buy WINE-OPU-001 5''\<rparr>,
      \<lparr>timestamp = Some (2024, 3, 1, 10, 0, 5, 0), message_type = ''ORDER'', trace_id = ''T1'',
       details = ''buy WINE-OPU-001 5''\<rparr>,
      \<lparr>timestamp = Some (2024, 3, 1, 10, 0, 7, 0), message_type = ''ORDER'', trace_id = ''T2'',
       details = ''buy WINE-OPU-001 5''\<rparr>,
      \<lparr>timestamp = Some (2024, 3, 1, 10, 1, 0, 0), message_type = ''TRANSACTION'', trace_id = ''T1'',
       details = ''120.50''\<rparr>,
      \<lparr>timestamp = Some (2024, 3, 1, 10, 2, 0, 0), message_type = ''TRANSACTION'', trace_id = ''T1'',
       details = ''120.50''\<rparr>,
      \<lparr>timestamp = Some (2024, 3, 1, 10, 3, 0, 0), message_type = ''TRANSACTION'', trace_id = ''T1'',
       details = ''120.50''\<rparr>]"

definition early_tx :: tx_row where
  "early_tx =
     \<lparr>timestamp = Some (2024, 3, 1, 8, 0, 0, 0), message_type = ''ORDER'', trace_id = ''T2'',
      details = ''sell WINE-OPU-001 2'', action = ''sell'', sku = ''WINE-OPU-001'', quantity = 2,
      transaction_amount = ''50.00''\<rparr>"

definition early_enriched :: "(string, int) enriched_row" where
  "early_enriched =
     \<lparr>tx = early_tx, metadata = Some ''Opus One'', price_time = None, market_price = None,
      transaction_value = None, year = 2024, quarter = (2024, 1), week = 9\<rparr>"

definition late_tx :: tx_row where
  "late_tx =
     \<lparr>timestamp = Some (2024, 3, 1, 12, 0, 0, 0), message_type = ''ORDER'', trace_id = ''T1'',
      details = ''sell WINE-OPU-001 3'', action = ''sell'', sku = ''WINE-OPU-001'', quantity = 3,
      transaction_amount = ''75.00''\<rparr>"

definition late_enriched :: "(string, int) enriched_row" where
  "late_enriched =
     \<lparr>tx = late_tx, metadata = Some ''Opus One'',
      price_time = Some (2024, 3, 1, 11, 0, 0, 0), market_price = Some 25,
      transaction_value = Some 75, year = 2024, quarter = (2024, 1), week = 9\<rparr>"

section \<open>Properties\<close>

text \<open>
  C4 (merge of fragments). The claim asks for a newline between the contents of any two
  consecutive fragments. The loop tests the opposite condition: it inserts the newline
  when the text so far is empty or already ends with one, and appends the next fragment
  directly when the text so far does not end with a newline. Two fragments \<open>a\<close> and
  \<open>b\<close> are merged into the single line \<open>ab\<close> (after a leading newline); the two
  entries of the scenario, one per fragment, become one line with one boundary match, and
  the settlement ends up in the details of the order.
\<close>

theorem C4_merge_fuses_fragments:
  "merge_fragments [''a'', ''b''] = [NL, CHR ''a'', CHR ''b'']
   \<and> merge_fragments [scenario_order, scenario_settlement] =
       [NL] @ scenario_order @ scenario_settlement
   \<and> finditer (merge_fragments [scenario_order, scenario_settlement]) = [1]
   \<and> map details (fst (parse_logs [scenario_order, scenario_settlement])) =
       [''buy WINE-OPU-001 52024-03-01 10:01:00 | TRANSACTION | T1 | 120.50'']"
  by code_simp

subsection \<open>Entry spans\<close>

lemma foldl_snoc_map:
  "foldl (\<lambda>acc i. acc @ [f i]) acc xs = acc @ map f xs"
  by (induction xs arbitrary: acc) simp_all

lemma entries_of_map:
  "entries_of full_text matches = map (entry_at full_text matches) [0..<length matches]"
  by (simp add: entries_of_def foldl_snoc_map)

lemma finditer_from_bounds:
  "x \<in> set (finditer_from pos bol skip s) \<Longrightarrow> pos \<le> x \<and> x < pos + length s"
proof (induction s arbitrary: pos bol skip)
  case Nil
  then show ?case by simp
next
  case (Cons c cs)
  then show ?case
    by (fastforce split: option.splits if_splits)
qed

lemma finditer_from_increasing:
  "sorted_wrt (<) (finditer_from pos bol skip s)"
proof (induction s arbitrary: pos bol skip)
  case Nil
  then show ?case by simp
next
  case (Cons c cs)
  have "\<And>b k x. x \<in> set (finditer_from (pos + 1) b k cs) \<Longrightarrow> pos < x"
    using finditer_from_bounds by fastforce
  with Cons show ?case
    by (auto split: option.splits)
qed

text \<open>
  C5 (entry count). The list of entries has one entry for each match of the boundary
  pattern. The matches lie inside the text at increasing positions, and entry \<open>i\<close> is the
  trimmed span, with its newlines replaced, from match \<open>i\<close> to match \<open>i + 1\<close>, or to the
  end of the text for the last match.
\<close>

theorem C5_entry_count:
  "length (entries_of_text full_text) = length (finditer full_text)
   \<and> (\<forall>i. i < length (finditer full_text) \<longrightarrow>
        finditer full_text ! i < length full_text
        \<and> (Suc i < length (finditer full_text) \<longrightarrow>
             finditer full_text ! i < finditer full_text ! Suc i)
        \<and> entries_of_text full_text ! i =
            replace_nl (strip (slice full_text (finditer full_text ! i)
              (if Suc i < length (finditer full_text) then finditer full_text ! Suc i
               else length full_text))))"
proof -
  let ?ms = "finditer full_text"
  have len: "length (entries_of_text full_text) = length ?ms"
    by (simp add: entries_of_text_def entries_of_map)
  have inc: "sorted_wrt (<) ?ms"
    unfolding finditer_def by (rule finditer_from_increasing)
  have bound: "\<And>i. i < length ?ms \<Longrightarrow> ?ms ! i < length full_text"
    using finditer_from_bounds [of _ 0 True 0 full_text]
    by (simp add: finditer_def)
  have nth: "\<And>i. i < length ?ms \<Longrightarrow> entries_of_text full_text ! i = entry_at full_text ?ms i"
    by (simp add: entries_of_text_def entries_of_map)
  show ?thesis
    using len inc bound nth
    by (auto simp: entry_at_def Let_def sorted_wrt_iff_nth_less)
qed

theorem C5_entry_count_witness:
  "finditer wrapped_log = [0, 64]
   \<and> length (entries_of_text wrapped_log) = 2
   \<and> entries_of_text wrapped_log ! 0 = scenario_order @ ''   wrapped''
   \<and> entries_of_text wrapped_log ! 1 = scenario_settlement"
proof -
  have ms: "finditer wrapped_log = [0, 64]"
    by code_simp
  have n: "length wrapped_log = 112"
    by code_simp
  have s0: "replace_nl (strip (slice wrapped_log 0 64)) = scenario_order @ ''   wrapped''"
    by code_simp
  have s1: "replace_nl (strip (slice wrapped_log 64 112)) = scenario_settlement"
    by code_simp
  from C5_entry_count [of wrapped_log] have
    "length (entries_of_text wrapped_log) = 2"
    "entries_of_text wrapped_log ! 0 = replace_nl (strip (slice wrapped_log 0 64))"
    "entries_of_text wrapped_log ! 1 = replace_nl (strip (slice wrapped_log 64 112))"
    by (simp_all add: ms n)
  with ms s0 s1 show ?thesis by simp
qed

subsection \<open>Incomplete entries\<close>

lemma split_bar_length: "1 \<le> length (split_bar n s) \<and> length (split_bar n s) \<le> n + 1"
proof (induction n s rule: split_bar.induct)
  case (1 n)
  then show ?case by simp
next
  case (2 n c cs)
  then show ?case
    by (cases "0 < n \<and> startswith (c # cs) '' | ''") (auto split: list.splits)
qed

lemma foldl_records_step:
  "foldl records_step (rs, ds) es =
     (rs @ map (split_bar 3) (filter (\<lambda>e. length (split_bar 3 e) = 4) es),
      ds @ map (\<lambda>e. ''[WARN] Incomplete log entry skipped: '' @ take 50 e @ ''...'')
             (filter (\<lambda>e. length (split_bar 3 e) \<noteq> 4) es))"
  by (induction es arbitrary: rs ds) (simp_all add: records_step_def Let_def)

lemma records_of_filter:
  "records_of es =
     (map (split_bar 3) (filter (\<lambda>e. length (split_bar 3 e) = 4) es),
      map (\<lambda>e. ''[WARN] Incomplete log entry skipped: '' @ take 50 e @ ''...'')
        (filter (\<lambda>e. length (split_bar 3 e) \<noteq> 4) es))"
  by (simp add: records_of_def foldl_records_step)

lemma parse_logs_rows:
  "parse_logs files =
     (map (\<lambda>e. row_of (split_bar 3 e))
        (filter (\<lambda>e. length (split_bar 3 e) = 4) (entries_of_text (merge_fragments files))),
      map (\<lambda>e. ''[WARN] Incomplete log entry skipped: '' @ take 50 e @ ''...'')
        (filter (\<lambda>e. length (split_bar 3 e) < 4) (entries_of_text (merge_fragments files))))"
proof -
  have "(length (split_bar 3 e) \<noteq> 4) = (length (split_bar 3 e) < 4)" for e
    using split_bar_length [of 3 e] by arith
  then show ?thesis
    by (simp add: parse_logs_def Let_def records_of_filter comp_def)
qed

lemma matched_orders_iff:
  "(l, g) \<in> set (matched_orders logs) \<longleftrightarrow>
     l \<in> set logs \<and> message_type l = ''ORDER'' \<and> order_search (details l) = Some g"
  by (cases g) (auto simp: matched_orders_def split: option.splits)

lemma extract_orders_source:
  assumes "extract_orders logs = Inr orders" and "r \<in> set orders"
  shows "\<exists>l \<in> set logs. \<exists>g. message_type l = ''ORDER'' \<and> order_search (details l) = Some g
           \<and> r = order_of l g"
proof -
  from assms have "r \<in> (\<lambda>(l, g). order_of l g) ` set (matched_orders logs)"
    by (auto simp: extract_orders_def Let_def split: if_splits)
  then obtain l g where "(l, g) \<in> set (matched_orders logs)" "r = order_of l g"
    by auto
  then show ?thesis
    by (cases g) (auto simp: matched_orders_iff)
qed

lemma order_of_fields [simp]:
  "timestamp (order_of l g) = timestamp l" "message_type (order_of l g) = message_type l"
  "trace_id (order_of l g) = trace_id l" "details (order_of l g) = details l"
  by (simp_all add: order_of_def split: prod.splits)

lemma tx_of_fields [simp]:
  "timestamp (tx_of r a) = timestamp r" "message_type (tx_of r a) = message_type r"
  "trace_id (tx_of r a) = trace_id r" "details (tx_of r a) = details r"
  "action (tx_of r a) = action r" "sku (tx_of r a) = sku r" "quantity (tx_of r a) = quantity r"
  "transaction_amount (tx_of r a) = a"
  by (simp_all add: tx_of_def)

lemma extract_transactions_source:
  assumes "extract_transactions logs = Inr merged" and "t \<in> set merged"
  shows "\<exists>l \<in> set logs. \<exists>s \<in> set logs. \<exists>g.
           message_type l = ''ORDER'' \<and> order_search (details l) = Some g
           \<and> message_type s = ''TRANSACTION'' \<and> trace_id s = trace_id l
           \<and> t = tx_of (order_of l g) (details s)"
proof -
  from assms obtain orders where o: "extract_orders logs = Inr orders"
    and m: "merged = inner_merge orders (settlements logs)"
    by (auto simp: extract_transactions_def split: sum.splits)
  from assms(2) m obtain r s where r: "r \<in> set orders" and s: "s \<in> set (settlements logs)"
    and k: "fst s = trace_id r" and t: "t = tx_of r (snd s)"
    by (auto simp: inner_merge_def)
  from extract_orders_source [OF o r] obtain l g where
    l: "l \<in> set logs" "message_type l = ''ORDER''" "order_search (details l) = Some g"
       "r = order_of l g"
    by blast
  from s obtain s' where s': "s' \<in> set logs" "message_type s' = ''TRANSACTION''"
      "s = (trace_id s', details s')"
    by (auto simp: settlements_def)
  show ?thesis
    using l s' k t by (intro bexI [of _ l] bexI [of _ s'] exI [of _ g]) auto
qed

lemma set_insort_by: "set (insort_by le x xs) = insert x (set xs)"
  by (induction xs) auto

lemma set_sort_by: "set (sort_by le xs) = set xs"
  by (induction xs) (simp_all add: sort_by_def set_insort_by)

lemma merge_asof_source:
  assumes "merge_asof left right = Inr out" and "r \<in> set out"
  shows "\<exists>j \<in> set left. \<exists>ts. timestamp (tx j) = Some ts
           \<and> r = attach_price j (asof_backward right (sku (tx j)) ts)"
  using assms by (fastforce simp: merge_asof_def split: if_splits)

lemma left_merge_source:
  "j \<in> set (left_merge transactions catalog) \<Longrightarrow> tx j \<in> set transactions"
  by (auto simp: left_merge_def Let_def split: if_splits)

lemma attach_price_fields [simp]:
  "tx (attach_price j m) = tx j" "metadata (attach_price j m) = metadata j"
  by (simp_all add: attach_price_def split: option.splits)

lemma derive_fields [simp]:
  "tx (derive mul r) = tx r" "metadata (derive mul r) = metadata r"
  "price_time (derive mul r) = price_time r" "market_price (derive mul r) = market_price r"
  by (simp_all add: derive_def Let_def)

lemma enrich_source:
  assumes "enrich_transactions mul transactions sku_df prices = Inr out" and "r \<in> set out"
  shows "tx r \<in> set transactions"
proof -
  from assms(1) obtain catalog ps priced where
    c: "sku_df = Frame catalog" and p: "prices = Frame ps"
    and m: "merge_asof
              (sort_key (\<lambda>r. time_key (timestamp (tx r)))
                 (sort_key (\<lambda>r. (sku (tx r), time_key (timestamp (tx r))))
                    (left_merge transactions catalog)))
              (sort_key (\<lambda>p. time_key (quote_time p))
                 (sort_key (\<lambda>p. (na_last (price_sku p) [], time_key (quote_time p))) ps))
            = Inr priced"
    and o: "out = map (derive mul) (sort_by final_le priced)"
    by (auto simp: enrich_transactions_def Let_def split: frame.splits sum.splits)
  from assms(2) o obtain r' where r': "r' \<in> set priced" "r = derive mul r'"
    by (auto simp: set_sort_by)
  from merge_asof_source [OF m r'(1)] obtain j where
    "j \<in> set (left_merge transactions catalog)" "tx r' = tx j"
    by auto
  with r' show ?thesis
    by (simp add: left_merge_source)
qed


text \<open>
  C6 (incomplete entries). \<open>parse_logs\<close> always returns: its rows are the rows of the entries
  that split into four fields, in order, and every entry with fewer fields adds one
  diagnostic and no row. Every row that the pipeline puts out is built from an order
  entry and a settlement entry that both have four fields.
\<close>

theorem C6_incomplete_entries_dropped:
  assumes "entries = entries_of_text (merge_fragments files)"
  shows "fst (parse_logs files) =
           map (\<lambda>e. row_of (split_bar 3 e)) (filter (\<lambda>e. length (split_bar 3 e) = 4) entries)
     \<and> snd (parse_logs files) =
           map (\<lambda>e. ''[WARN] Incomplete log entry skipped: '' @ take 50 e @ ''...'')
             (filter (\<lambda>e. length (split_bar 3 e) < 4) entries)
     \<and> (\<forall>out. pipeline mul files src price_files = Inr out \<longrightarrow>
          (\<forall>r \<in> set out. \<exists>e \<in> set entries. \<exists>e' \<in> set entries.
              length (split_bar 3 e) = 4 \<and> length (split_bar 3 e') = 4
              \<and> timestamp (tx r) = to_datetime (split_bar 3 e ! 0)
              \<and> message_type (tx r) = split_bar 3 e ! 1
              \<and> trace_id (tx r) = split_bar 3 e ! 2
              \<and> details (tx r) = split_bar 3 e ! 3
              \<and> trace_id (tx r) = split_bar 3 e' ! 2
              \<and> transaction_amount (tx r) = split_bar 3 e' ! 3))"
proof (intro conjI allI impI ballI)
  show "fst (parse_logs files) =
          map (\<lambda>e. row_of (split_bar 3 e)) (filter (\<lambda>e. length (split_bar 3 e) = 4) entries)"
    by (simp add: parse_logs_rows assms)
  show "snd (parse_logs files) =
          map (\<lambda>e. ''[WARN] Incomplete log entry skipped: '' @ take 50 e @ ''...'')
            (filter (\<lambda>e. length (split_bar 3 e) < 4) entries)"
    by (simp add: parse_logs_rows assms)
next
  fix out r
  assume p: "pipeline mul files src price_files = Inr out" and r: "r \<in> set out"
  let ?logs = "fst (parse_logs files)"
  from p obtain sku_df transactions where
    t: "extract_transactions ?logs = Inr transactions"
    and e: "enrich_transactions mul transactions sku_df (read_market_prices price_files) = Inr out"
    by (auto simp: pipeline_def Let_def split: sum.splits)
  from enrich_source [OF e r] have "tx r \<in> set transactions" .
  from extract_transactions_source [OF t this] obtain l s g where
    l: "l \<in> set ?logs" and s: "s \<in> set ?logs" and k: "trace_id s = trace_id l"
    and x: "tx r = tx_of (order_of l g) (details s)"
    by blast
  from l obtain e where e: "e \<in> set entries" "length (split_bar 3 e) = 4" "l = row_of (split_bar 3 e)"
    by (auto simp: parse_logs_rows assms)
  from s obtain e' where e': "e' \<in> set entries" "length (split_bar 3 e') = 4"
      "s = row_of (split_bar 3 e')"
    by (auto simp: parse_logs_rows assms)
  show "\<exists>e \<in> set entries. \<exists>e' \<in> set entries.
              length (split_bar 3 e) = 4 \<and> length (split_bar 3 e') = 4
              \<and> timestamp (tx r) = to_datetime (split_bar 3 e ! 0)
              \<and> message_type (tx r) = split_bar 3 e ! 1
              \<and> trace_id (tx r) = split_bar 3 e ! 2
              \<and> details (tx r) = split_bar 3 e ! 3
              \<and> trace_id (tx r) = split_bar 3 e' ! 2
              \<and> transaction_amount (tx r) = split_bar 3 e' ! 3"
    using e e' k x by (intro bexI [of _ e] bexI [of _ e']) (auto simp: row_of_def)
qed

subsection \<open>Orders and the correlation join\<close>

lemma order_match_at_action:
  "order_match_at s = Some (a, k, q) \<Longrightarrow> a = ''buy'' \<or> a = ''sell''"
  by (auto simp: order_match_at_def Let_def split: if_splits)

lemma order_search_action:
  "order_search s = Some (a, k, q) \<Longrightarrow> a = ''buy'' \<or> a = ''sell''"
  by (induction s) (auto dest: order_match_at_action split: option.splits)

text \<open>
  C2 (signed quantity). When \<open>extract_orders\<close> returns, every ORDER row whose details match
  the pattern has its order row, and every order row carries the action and the sku of the
  match, a quantity whose absolute value is the parsed number, negative for a buy and
  positive for a sell when the number is not zero.
\<close>

theorem C2_signed_quantity:
  assumes "extract_orders logs = Inr orders"
  shows "(\<forall>l \<in> set logs. \<forall>a k q. message_type l = ''ORDER''
            \<longrightarrow> order_search (details l) = Some (a, k, q)
            \<longrightarrow> order_of l (a, k, q) \<in> set orders)
     \<and> (\<forall>r \<in> set orders. \<exists>q. order_search (details r) = Some (action r, sku r, q)
            \<and> \<bar>quantity r\<bar> = int (int_of_digits q)
            \<and> (action r = ''buy'' \<or> action r = ''sell'')
            \<and> (int_of_digits q \<noteq> 0 \<longrightarrow>
                 (action r = ''buy'' \<longrightarrow> quantity r < 0)
                 \<and> (action r = ''sell'' \<longrightarrow> 0 < quantity r)))"
proof (intro conjI ballI allI impI)
  fix l a k q
  assume "l \<in> set logs" "message_type l = ''ORDER''" "order_search (details l) = Some (a, k, q)"
  then have "(l, a, k, q) \<in> set (matched_orders logs)"
    by (simp add: matched_orders_iff)
  with assms show "order_of l (a, k, q) \<in> set orders"
    by (force simp: extract_orders_def Let_def split: if_splits)
next
  fix r
  assume "r \<in> set orders"
  from extract_orders_source [OF assms this] obtain l a k q where
    l: "order_search (details l) = Some (a, k, q)" "r = order_of l (a, k, q)"
    by (metis prod_cases3)
  from order_search_action [OF l(1)] have a: "a = ''buy'' \<or> a = ''sell''" .
  show "\<exists>q. order_search (details r) = Some (action r, sku r, q)
            \<and> \<bar>quantity r\<bar> = int (int_of_digits q)
            \<and> (action r = ''buy'' \<or> action r = ''sell'')
            \<and> (int_of_digits q \<noteq> 0 \<longrightarrow>
                 (action r = ''buy'' \<longrightarrow> quantity r < 0)
                 \<and> (action r = ''sell'' \<longrightarrow> 0 < quantity r))"
    using l a by (intro exI [of _ q]) (auto simp: order_of_def)
qed

lemma inner_merge_count:
  "length (filter (\<lambda>t. trace_id t = c) (inner_merge orders S)) =
     length (filter (\<lambda>r. trace_id r = c) orders) * length (filter (\<lambda>s. fst s = c) S)"
proof (induction orders)
  case Nil
  then show ?case by (simp add: inner_merge_def)
next
  case (Cons r orders)
  have "filter (\<lambda>t. trace_id t = c)
          (map (\<lambda>t. tx_of r (snd t)) (filter (\<lambda>t. fst t = trace_id r) S)) =
        (if trace_id r = c then map (\<lambda>t. tx_of r (snd t)) (filter (\<lambda>t. fst t = c) S) else [])"
    by (simp add: filter_map comp_def)
  with Cons show ?case
    by (simp add: inner_merge_def)
qed

lemma matched_orders_count:
  "length (filter (\<lambda>r. trace_id r = c) (map (\<lambda>(l, g). order_of l g) (matched_orders logs))) =
     length (filter (\<lambda>l. message_type l = ''ORDER'' \<and> order_search (details l) \<noteq> None
                       \<and> trace_id l = c) logs)"
  by (induction logs) (auto simp: matched_orders_def split: option.splits)

lemma settlements_count:
  "length (filter (\<lambda>s. fst s = c) (settlements logs)) =
     length (filter (\<lambda>l. message_type l = ''TRANSACTION'' \<and> trace_id l = c) logs)"
  by (induction logs) (auto simp: settlements_def)

text \<open>
  C3 (correlation join). When every parsed quantity fits \<^verbatim>\<open>int64\<close>, \<open>extract_transactions\<close>
  returns, and for every trace id the number of its rows is the number of matched orders
  with that id times the number of settlements with that id (zero when either is zero).
\<close>

theorem C3_inner_join_cardinality:
  assumes "\<forall>l \<in> set logs. \<forall>a k q. message_type l = ''ORDER''
             \<longrightarrow> order_search (details l) = Some (a, k, q)
             \<longrightarrow> int (int_of_digits q) \<le> int64_max"
  shows "\<exists>merged. extract_transactions logs = Inr merged
     \<and> (\<forall>c. length (filter (\<lambda>t. trace_id t = c) merged) =
          length (filter (\<lambda>l. message_type l = ''ORDER'' \<and> order_search (details l) \<noteq> None
                            \<and> trace_id l = c) logs)
          * length (filter (\<lambda>l. message_type l = ''TRANSACTION'' \<and> trace_id l = c) logs))"
proof -
  have "list_all (\<lambda>(r, a, k, q). astype_int q \<noteq> Inl OverflowError) (matched_orders logs)"
    using assms by (auto simp: list_all_iff matched_orders_iff astype_int_def)
  then have "extract_orders logs = Inr (map (\<lambda>(l, g). order_of l g) (matched_orders logs))"
    by (simp add: extract_orders_def Let_def)
  then have m: "extract_transactions logs =
      Inr (inner_merge (map (\<lambda>(l, g). order_of l g) (matched_orders logs)) (settlements logs))"
    by (simp add: extract_transactions_def)
  show ?thesis
  proof (intro exI conjI allI)
    show "extract_transactions logs =
      Inr (inner_merge (map (\<lambda>(l, g). order_of l g) (matched_orders logs)) (settlements logs))"
      by (rule m)
  next
    fix c
    show "length (filter (\<lambda>t. trace_id t = c)
            (inner_merge (map (\<lambda>(l, g). order_of l g) (matched_orders logs)) (settlements logs))) =
          length (filter (\<lambda>l. message_type l = ''ORDER'' \<and> order_search (details l) \<noteq> None
                            \<and> trace_id l = c) logs)
          * length (filter (\<lambda>l. message_type l = ''TRANSACTION'' \<and> trace_id l = c) logs)"
      unfolding inner_merge_count matched_orders_count settlements_count by (rule refl)
  qed
qed

subsection \<open>The as-of join and the derived fields\<close>

lemma find_rev_sorted_max:
  assumes "sorted (map f xs)" and "find P (rev xs) = Some p"
  shows "p \<in> set xs \<and> P p \<and> (\<forall>q \<in> set xs. P q \<longrightarrow> f q \<le> f p)"
  using assms
proof (induction xs rule: rev_induct)
  case Nil
  then show ?case by simp
next
  case (snoc x xs)
  show ?case
  proof (cases "P x")
    case True
    with snoc.prems show ?thesis
      by (auto simp: sorted_append)
  next
    case False
    with snoc show ?thesis
      by (auto simp: sorted_append)
  qed
qed

lemma asof_backward_Some:
  assumes "sorted (map (\<lambda>p. the (quote_time p)) right)"
    and "asof_backward right k t = Some p"
  shows "p \<in> set right \<and> eligible k t p
         \<and> (\<forall>q \<in> set right. eligible k t q \<longrightarrow> the (quote_time q) \<le> the (quote_time p))"
  using find_rev_sorted_max [OF assms(1), of "eligible k t" p] assms(2)
  by (simp add: asof_backward_def)

lemma asof_backward_None:
  "asof_backward right k t = None \<longleftrightarrow> (\<forall>q \<in> set right. \<not> eligible k t q)"
  by (auto simp: asof_backward_def find_None_iff)

lemma merge_asof_right_sorted:
  "merge_asof left right = Inr out \<Longrightarrow> sorted (map (\<lambda>p. the (quote_time p)) right)"
  by (simp add: merge_asof_def split: if_splits)

lemma enrich_Inr:
  assumes "enrich_transactions mul transactions sku_df prices = Inr out"
  obtains catalog ps priced where
    "sku_df = Frame catalog" and "prices = Frame ps"
    and "merge_asof
           (sort_key (\<lambda>r. time_key (timestamp (tx r)))
              (sort_key (\<lambda>r. (sku (tx r), time_key (timestamp (tx r))))
                 (left_merge transactions catalog)))
           (sort_key (\<lambda>p. time_key (quote_time p))
              (sort_key (\<lambda>p. (na_last (price_sku p) [], time_key (quote_time p))) ps))
         = Inr priced"
    and "out = map (derive mul) (sort_by final_le priced)"
  using assms
  by (auto simp: enrich_transactions_def Let_def split: frame.splits sum.splits)

lemma enrich_row:
  assumes "enrich_transactions mul transactions sku_df (Frame ps) = Inr out" and "r \<in> set out"
  obtains right j ts where
    "set right = set ps" and "sorted (map (\<lambda>p. the (quote_time p)) right)"
    and "tx j \<in> set transactions" and "timestamp (tx j) = Some ts"
    and "r = derive mul (attach_price j (asof_backward right (sku (tx j)) ts))"
proof -
  from assms(1) obtain catalog priced where
    m: "merge_asof
           (sort_key (\<lambda>r. time_key (timestamp (tx r)))
              (sort_key (\<lambda>r. (sku (tx r), time_key (timestamp (tx r))))
                 (left_merge transactions catalog)))
           (sort_key (\<lambda>p. time_key (quote_time p))
              (sort_key (\<lambda>p. (na_last (price_sku p) [], time_key (quote_time p))) ps))
         = Inr priced"
    and o: "out = map (derive mul) (sort_by final_le priced)"
    by (auto elim!: enrich_Inr)
  let ?right = "sort_key (\<lambda>p. time_key (quote_time p))
              (sort_key (\<lambda>p. (na_last (price_sku p) [], time_key (quote_time p))) ps)"
  from assms(2) o obtain r' where r': "r' \<in> set priced" "r = derive mul r'"
    by (auto simp: set_sort_by)
  from merge_asof_source [OF m r'(1)] obtain j ts where
    j: "j \<in> set (left_merge transactions catalog)" "timestamp (tx j) = Some ts"
       "r' = attach_price j (asof_backward ?right (sku (tx j)) ts)"
    by auto
  show ?thesis
  proof (rule that [of ?right j ts])
    show "set ?right = set ps" by simp
    show "sorted (map (\<lambda>p. the (quote_time p)) ?right)"
      using m by (rule merge_asof_right_sorted)
    show "tx j \<in> set transactions" using j(1) by (rule left_merge_source)
    show "timestamp (tx j) = Some ts" by (rule j(2))
    show "r = derive mul (attach_price j (asof_backward ?right (sku (tx j)) ts))"
      using r'(2) j(3) by simp
  qed
qed

text \<open>
  C1 (backward as-of match). In every row that \<open>enrich_transactions\<close> returns, a non-null
  market price is the price of a price point of the same sku whose time is the row's
  \<open>price_time\<close>, is less than or equal to the row's timestamp (equality included), and is
  the greatest such time among the price points of that sku; when no price point of the sku
  has a time less than or equal to the timestamp, the market price is null.
\<close>

theorem C1_asof_backward:
  assumes "enrich_transactions mul transactions sku_df (Frame ps) = Inr out" and "r \<in> set out"
  shows "\<exists>ts. timestamp (tx r) = Some ts
     \<and> (\<forall>v. market_price r = Some v \<longrightarrow>
          (\<exists>p \<in> set ps. \<exists>pt. price_sku p = Some (sku (tx r)) \<and> quote_time p = Some pt
             \<and> price_usd p = Some v \<and> price_time r = Some pt \<and> pt \<le> ts
             \<and> (\<forall>p' \<in> set ps. \<forall>pt'. price_sku p' = Some (sku (tx r))
                   \<longrightarrow> quote_time p' = Some pt' \<longrightarrow> pt' \<le> ts \<longrightarrow> pt' \<le> pt)))
     \<and> ((\<forall>p \<in> set ps. \<forall>pt. price_sku p = Some (sku (tx r))
            \<longrightarrow> quote_time p = Some pt \<longrightarrow> \<not> pt \<le> ts)
          \<longrightarrow> market_price r = None \<and> price_time r = None)"
proof -
  from assms obtain right j ts where
    s: "set right = set ps" and o: "sorted (map (\<lambda>p. the (quote_time p)) right)"
    and t: "timestamp (tx j) = Some ts"
    and r: "r = derive mul (attach_price j (asof_backward right (sku (tx j)) ts))"
    by (rule enrich_row)
  have k: "sku (tx r) = sku (tx j)" and t': "timestamp (tx r) = Some ts"
    using r t by simp_all
  show ?thesis
  proof (cases "asof_backward right (sku (tx j)) ts")
    case None
    then have "market_price r = None" "price_time r = None"
      using r by (simp_all add: attach_price_def)
    with t' show ?thesis by (intro exI [of _ ts]) simp
  next
    case (Some p)
    from asof_backward_Some [OF o Some] have
      p: "p \<in> set ps" "eligible (sku (tx j)) ts p"
      and mx: "\<And>q. q \<in> set ps \<Longrightarrow> eligible (sku (tx j)) ts q
                 \<Longrightarrow> the (quote_time q) \<le> the (quote_time p)"
      using s by auto
    from p(2) obtain pt where pt: "price_sku p = Some (sku (tx j))" "quote_time p = Some pt" "pt \<le> ts"
      by (auto simp: eligible_def split: option.splits)
    have f: "market_price r = price_usd p" "price_time r = Some pt"
      using r Some pt by (simp_all add: attach_price_def)
    have mx': "pt' \<le> pt" if "p' \<in> set ps" "price_sku p' = Some (sku (tx j))"
        "quote_time p' = Some pt'" "pt' \<le> ts" for p' pt'
      using mx [of p'] that pt by (simp add: eligible_def)
    show ?thesis
    proof (intro exI [of _ ts] conjI allI impI)
      show "timestamp (tx r) = Some ts" by (rule t')
    next
      fix v
      assume "market_price r = Some v"
      then have "price_usd p = Some v" using f by simp
      then show "\<exists>p \<in> set ps. \<exists>pt. price_sku p = Some (sku (tx r)) \<and> quote_time p = Some pt
             \<and> price_usd p = Some v \<and> price_time r = Some pt \<and> pt \<le> ts
             \<and> (\<forall>p' \<in> set ps. \<forall>pt'. price_sku p' = Some (sku (tx r))
                   \<longrightarrow> quote_time p' = Some pt' \<longrightarrow> pt' \<le> ts \<longrightarrow> pt' \<le> pt)"
        using p(1) pt f(2) mx' unfolding k
        by (intro bexI [of _ p] exI [of _ pt]) blast+
    next
      assume "\<forall>p \<in> set ps. \<forall>pt. price_sku p = Some (sku (tx r))
            \<longrightarrow> quote_time p = Some pt \<longrightarrow> \<not> pt \<le> ts"
      with p(1) pt k have False by metis
      then show "market_price r = None" and "price_time r = None" by blast+
    qed
  qed
qed

text \<open>
  C7 (derived fields). In every row that \<open>enrich_transactions\<close> returns, the transaction
  value is the product of the quantity and the market price, and null when the market price
  is null; the year, the quarter (printed as year, Q, number of the quarter) and the ISO
  week are those of the row's timestamp.
\<close>

theorem C7_derived_fields:
  assumes "enrich_transactions mul transactions sku_df prices = Inr out" and "r \<in> set out"
  shows "tx r \<in> set transactions
     \<and> transaction_value r =
         (case market_price r of None \<Rightarrow> None | Some p \<Rightarrow> Some (mul (quantity (tx r)) p))
     \<and> (\<exists>ts. timestamp (tx r) = Some ts
          \<and> year r = dt_year ts
          \<and> quarter r = (dt_year ts, (dt_month ts - 1) div 3 + 1)
          \<and> quarter_label (quarter r) = show_nat (dt_year ts) @ ''Q'' @ show_nat ((dt_month ts - 1) div 3 + 1)
          \<and> week r = iso_week ts)"
proof -
  from assms(1) obtain ps where "prices = Frame ps"
    by (auto elim!: enrich_Inr)
  with assms obtain right j ts where
    t: "timestamp (tx j) = Some ts" and x: "tx j \<in> set transactions"
    and r: "r = derive mul (attach_price j (asof_backward right (sku (tx j)) ts))"
    by (auto elim!: enrich_row)
  have "timestamp (tx r) = Some ts" "tx r = tx j"
    using t r by simp_all
  moreover have "transaction_value r =
      (case market_price r of None \<Rightarrow> None | Some p \<Rightarrow> Some (mul (quantity (tx r)) p))"
    unfolding r by (simp add: derive_def Let_def split: option.splits)
  moreover have "year r = dt_year ts" "quarter r = (dt_year ts, (dt_month ts - 1) div 3 + 1)"
    "week r = iso_week ts"
    unfolding r using t by (simp_all add: derive_def Let_def to_period_Q_def)
  ultimately show ?thesis
    using x by (intro conjI exI [of _ ts]) (simp_all add: quarter_label_def)
qed

subsection \<open>The order of the output\<close>

lemma sorted_wrt_insort_by:
  assumes tot: "\<And>a b. le a b \<or> le b a" and tr: "\<And>a b c. le a b \<Longrightarrow> le b c \<Longrightarrow> le a c"
  shows "sorted_wrt le xs \<Longrightarrow> sorted_wrt le (insort_by le x xs)"
proof (induction xs)
  case Nil
  then show ?case by simp
next
  case (Cons y ys)
  show ?case
  proof (cases "le x y")
    case True
    with Cons.prems tr show ?thesis by auto
  next
    case False
    with tot have "le y x" by blast
    with Cons False show ?thesis
      by (auto simp: set_insort_by)
  qed
qed

lemma sorted_wrt_sort_by:
  assumes "\<And>a b. le a b \<or> le b a" and "\<And>a b c. le a b \<Longrightarrow> le b c \<Longrightarrow> le a c"
  shows "sorted_wrt le (sort_by le xs)"
  by (induction xs) (simp_all add: sort_by_def sorted_wrt_insort_by [OF assms])

lemma desc_na_last_total: "desc_na_last a b \<or> desc_na_last b a"
  by (cases a; cases b) (auto simp: desc_na_last_def)

lemma desc_na_last_trans: "desc_na_last a b \<Longrightarrow> desc_na_last b c \<Longrightarrow> desc_na_last a c"
  by (cases a; cases b; cases c) (auto simp: desc_na_last_def)

lemma final_le_total: "final_le a b \<or> final_le b a"
  using desc_na_last_total [of "price_time a" "price_time b"]
  by (auto simp: final_le_def)

lemma final_le_trans: "final_le a b \<Longrightarrow> final_le b c \<Longrightarrow> final_le a c"
  using desc_na_last_trans [of "price_time a" "price_time b" "price_time c"]
  by (auto simp: final_le_def)

lemma sorted_final: "sorted_wrt final_le (sort_by final_le xs)"
  by (rule sorted_wrt_sort_by) (rule final_le_total, erule final_le_trans)

text \<open>
  C9 (output order), as amended. The rows that \<open>enrich_transactions\<close> returns are in
  ascending order of \<open>trace_id\<close> (line 241 sorts it with \<^verbatim>\<open>ascending=True\<close>), and rows with
  the same \<open>trace_id\<close> are in descending order of \<open>price_time\<close>, the rows with a null
  \<open>price_time\<close> last. The claim as written (descending \<open>trace_id\<close>) fails on the sample
  transactions.
\<close>

theorem C9_output_order:
  assumes "enrich_transactions mul transactions sku_df prices = Inr out"
    and "i < j" and "j < length out"
  shows "trace_id (tx (out ! i)) \<le> trace_id (tx (out ! j))
     \<and> (trace_id (tx (out ! i)) = trace_id (tx (out ! j)) \<longrightarrow>
          price_time (out ! j) = None
          \<or> (\<exists>a b. price_time (out ! i) = Some a \<and> price_time (out ! j) = Some b \<and> b \<le> a))"
proof -
  from assms(1) obtain priced where o: "out = map (derive mul) (sort_by final_le priced)"
    by (auto elim!: enrich_Inr)
  let ?s = "sort_by final_le priced"
  from assms(2,3) o have j: "j < length ?s" and i: "i < length ?s"
    by simp_all
  from sorted_final [of priced] assms(2) j have "final_le (?s ! i) (?s ! j)"
    by (simp add: sorted_wrt_iff_nth_less)
  moreover have "tx (out ! i) = tx (?s ! i)" "tx (out ! j) = tx (?s ! j)"
    "price_time (out ! i) = price_time (?s ! i)" "price_time (out ! j) = price_time (?s ! j)"
    using i j o by simp_all
  ultimately show ?thesis
    by (auto simp: final_le_def desc_na_last_def split: option.splits)
qed

subsection \<open>The sku of a price row\<close>

lemma hyphen_not_digit: "\<not> is_digit (CHR ''-'')"
  by (simp add: is_digit_def)

lemma hyphen_digits_end_iff:
  assumes "NL \<notin> set s"
  shows "hyphen_digits_end s \<longleftrightarrow> (\<exists>ds. ds \<noteq> [] \<and> list_all is_digit ds \<and> s = CHR ''-'' # ds)"
proof (cases s)
  case Nil
  then show ?thesis by (simp add: hyphen_digits_end_def)
next
  case (Cons c cs)
  have "dropWhile is_digit cs \<noteq> [NL]"
  proof
    assume "dropWhile is_digit cs = [NL]"
    then have "NL \<in> set (dropWhile is_digit cs)" by simp
    then have "NL \<in> set cs" by (rule set_dropWhileD)
    with assms Cons show False by simp
  qed
  moreover have "takeWhile is_digit cs \<noteq> [] \<and> dropWhile is_digit cs = []
      \<longleftrightarrow> cs \<noteq> [] \<and> list_all is_digit cs"
    by (cases cs) (auto simp: dropWhile_eq_Nil_conv list_all_iff)
  ultimately show ?thesis
    using Cons by (auto simp: hyphen_digits_end_def)
qed

lemma lazy_prefix_iff:
  assumes "NL \<notin> set q"
  shows "lazy_prefix q = Some s \<longleftrightarrow>
           (\<exists>ds. ds \<noteq> [] \<and> list_all is_digit ds \<and> q = s @ CHR ''-'' # ds)"
  using assms
proof (induction q arbitrary: s)
  case Nil
  then show ?case by simp
next
  case (Cons c cs)
  from Cons.prems have nl: "NL \<notin> set cs" "c \<noteq> NL" by auto
  note h = hyphen_digits_end_iff [OF Cons.prems]
  show ?case
  proof (cases "hyphen_digits_end (c # cs)")
    case True
    with h obtain ds0 where ds0: "list_all is_digit ds0" "c = CHR ''-''" "cs = ds0"
      by auto
    have "s = []" if "c # cs = s @ CHR ''-'' # ds" for ds
    proof (cases s)
      case Nil
      then show ?thesis by simp
    next
      case (Cons a s')
      with that have "cs = s' @ CHR ''-'' # ds" by simp
      then have "CHR ''-'' \<in> set cs" by simp
      with ds0 hyphen_not_digit show ?thesis by (auto simp: list_all_iff)
    qed
    moreover have "\<exists>ds. ds \<noteq> [] \<and> list_all is_digit ds \<and> c # cs = [] @ CHR ''-'' # ds"
      using True h by simp
    ultimately show ?thesis
      using True by auto
  next
    case False
    have "(\<exists>ds. ds \<noteq> [] \<and> list_all is_digit ds \<and> c # cs = s @ CHR ''-'' # ds) \<longleftrightarrow>
          (\<exists>s'. s = c # s' \<and> (\<exists>ds. ds \<noteq> [] \<and> list_all is_digit ds \<and> cs = s' @ CHR ''-'' # ds))"
    proof (cases s)
      case Nil
      with False h show ?thesis by auto
    next
      case (Cons a s')
      then show ?thesis by auto
    qed
    also have "\<dots> \<longleftrightarrow> (\<exists>s'. s = c # s' \<and> lazy_prefix cs = Some s')"
      using Cons.IH [OF nl(1)] by simp
    also have "\<dots> \<longleftrightarrow> lazy_prefix (c # cs) = Some s"
      using False nl(2) by auto
    finally show ?thesis by simp
  qed
qed

lemma asof_backward_sku:
  "asof_backward right k t = Some p \<Longrightarrow> price_sku p = Some k"
  by (auto simp: asof_backward_def eligible_def find_Some_iff)

lemma read_market_prices_sku:
  "read_market_prices all_files = Frame ps \<Longrightarrow> p \<in> set ps
     \<Longrightarrow> price_sku p = derive_sku (quote_id p)"
  by (auto simp: read_market_prices_def add_sku_def split: if_splits)

text \<open>
  C10 (derived sku), as amended. For a \<open>quote_id\<close> with no newline in it, the derived sku
  is \<open>s\<close> exactly when the \<open>quote_id\<close> is \<open>s\<close>, a hyphen and one or more digits, so
  it is null when the \<open>quote_id\<close> does not end so; a null \<open>quote_id\<close> gives a null
  sku; and the price row that the as-of join matches has the sku of the transaction, so a
  row with a null sku is never matched. With a newline in the \<open>quote_id\<close> the claim as
  written fails: the pattern has no \<^verbatim>\<open>re.DOTALL\<close>, and its \<^verbatim>\<open>$\<close> accepts a final newline.
\<close>

theorem C10_derived_sku:
  "(NL \<notin> set q \<longrightarrow>
      (derive_sku (Some q) = Some s \<longleftrightarrow>
         (\<exists>ds. ds \<noteq> [] \<and> list_all is_digit ds \<and> q = s @ ''-'' @ ds)))
   \<and> derive_sku None = None
   \<and> (read_market_prices all_files = Frame ps \<longrightarrow>
        (\<forall>p \<in> set ps. price_sku p = derive_sku (quote_id p)))
   \<and> (asof_backward right k t = Some p \<longrightarrow> price_sku p = Some k \<and> price_sku p \<noteq> None)"
  using lazy_prefix_iff [of q s] read_market_prices_sku [of all_files ps]
    asof_backward_sku [of right k t p]
  by (auto simp: derive_sku_def)

section \<open>The sample inputs, evaluated\<close>

lemma incomplete_log_entries:
  "entries_of_text (merge_fragments incomplete_log) =
     [scenario_order, ''2024-03-01 10:00:30 | ORDER |'', scenario_settlement]"
  by code_simp

lemma incomplete_log_rows: "fst (parse_logs incomplete_log) = scenario_rows"
  by code_simp

lemma incomplete_log_diagnostics:
  "snd (parse_logs incomplete_log) =
     [''[WARN] Incomplete log entry skipped: 2024-03-01 10:00:30 | ORDER |...'']"
  by code_simp

lemma scenario_order_search:
  "order_search ''buy WINE-OPU-001 5'' = Some (''buy'', ''WINE-OPU-001'', ''5'')"
  by code_simp

lemma scenario_extract_orders: "extract_orders scenario_rows = Inr [scenario_order_row]"
  by code_simp

lemma scenario_extract: "extract_transactions scenario_rows = Inr [scenario_tx]"
  by code_simp

lemma scenario_read_prices: "read_market_prices [Some scenario_quotes] = Frame scenario_prices"
  by code_simp

lemma ymd2ord_2024_3_1: "ymd2ord 2024 3 (Suc 0) = 738946"
  by (simp add: ymd2ord_def days_before_year_def days_before_month_def is_leap_def)

lemma ymd2ord_2024_1_1: "ymd2ord 2024 (Suc 0) (Suc 0) = 738886"
  by (simp add: ymd2ord_def days_before_year_def days_before_month_def is_leap_def)

lemma ymd2ord_2025_1_1: "ymd2ord 2025 (Suc 0) (Suc 0) = 739252"
  by (simp add: ymd2ord_def days_before_year_def days_before_month_def is_leap_def)

lemma iso_week_2024_3_1: "iso_week (2024, 3, Suc 0, hms) = 9"
  by (simp add: iso_week_def ymd2ord_2024_3_1 ymd2ord_2024_1_1 ymd2ord_2025_1_1 weekday_def
      dt_year_def dt_month_def dt_day_def Let_def)

text \<open>The ISO week at the turn of a year: 2020 has 53 weeks, 2024-12-30 is in week 1 of 2025.\<close>

lemma ymd2ord_samples:
  "ymd2ord 2020 12 31 = 737790" "ymd2ord 2020 (Suc 0) (Suc 0) = 737425"
  "ymd2ord 2021 (Suc 0) 3 = 737793" "ymd2ord 2021 (Suc 0) (Suc 0) = 737791"
  "ymd2ord 2022 (Suc 0) (Suc 0) = 738156"
  "ymd2ord 2024 12 30 = 739250" "ymd2ord 2026 (Suc 0) (Suc 0) = 739617"
  by (simp_all add: ymd2ord_def days_before_year_def days_before_month_def is_leap_def)

lemma iso_week_samples:
  "iso_week (2020, 12, 31, hms) = 53"
  "iso_week (2021, 1, 3, hms) = 53"
  "iso_week (2024, 12, 30, hms) = 1"
  by (simp_all add: iso_week_def ymd2ord_samples ymd2ord_2024_1_1 ymd2ord_2025_1_1 weekday_def
      dt_year_def dt_month_def dt_day_def Let_def)

lemma scenario_enrich:
  "enrich_transactions (*) [scenario_tx] (Frame scenario_catalog) (Frame scenario_prices) =
     Inr [scenario_enriched]"
  by (simp add: enrich_transactions_def left_merge_def scenario_catalog_def scenario_tx_def
      scenario_prices_def scenario_enriched_def merge_asof_def time_key_def na_last_def
      asof_backward_def eligible_def attach_price_def sort_by_def derive_def iso_week_2024_3_1
      to_period_Q_def dt_year_def dt_month_def Let_def)

lemma scenario_pipeline:
  "pipeline (*) incomplete_log (Json scenario_catalog) [Some scenario_quotes] =
     Inr [scenario_enriched]"
  by (simp add: pipeline_def incomplete_log_rows read_skus_def scenario_catalog_def
      scenario_read_prices scenario_extract scenario_enrich [unfolded scenario_catalog_def])

theorem C6_incomplete_entries_dropped_witness:
  "fst (parse_logs incomplete_log) = scenario_rows
   \<and> snd (parse_logs incomplete_log) =
       [''[WARN] Incomplete log entry skipped: 2024-03-01 10:00:30 | ORDER |...'']
   \<and> pipeline (*) incomplete_log (Json scenario_catalog) [Some scenario_quotes] =
       Inr [scenario_enriched]
   \<and> (\<exists>e \<in> set (entries_of_text (merge_fragments incomplete_log)).
        length (split_bar 3 e) = 4 \<and> trace_id (tx scenario_enriched) = split_bar 3 e ! 2)"
proof -
  note c6 = C6_incomplete_entries_dropped [OF refl, of incomplete_log "(*)"
      "Json scenario_catalog" "[Some scenario_quotes]"]
  from c6 have "\<forall>r \<in> set [scenario_enriched].
      \<exists>e \<in> set (entries_of_text (merge_fragments incomplete_log)).
        length (split_bar 3 e) = 4 \<and> trace_id (tx r) = split_bar 3 e ! 2"
    using scenario_pipeline by fastforce
  then show ?thesis
    using incomplete_log_rows incomplete_log_diagnostics scenario_pipeline by simp
qed

theorem C2_signed_quantity_witness:
  "extract_orders scenario_rows = Inr [scenario_order_row]
   \<and> order_search (details scenario_order_row) = Some (''buy'', ''WINE-OPU-001'', ''5'')
   \<and> int_of_digits ''5'' = 5
   \<and> quantity scenario_order_row < 0
   \<and> \<bar>quantity scenario_order_row\<bar> = 5"
proof -
  have d: "order_search (details scenario_order_row) = Some (''buy'', ''WINE-OPU-001'', ''5'')"
    by code_simp
  have n: "int_of_digits ''5'' = 5"
    by (simp add: int_of_digits_def)
  from C2_signed_quantity [OF scenario_extract_orders]
  have "\<exists>q. order_search (details scenario_order_row)
               = Some (action scenario_order_row, sku scenario_order_row, q)
          \<and> \<bar>quantity scenario_order_row\<bar> = int (int_of_digits q)
          \<and> (int_of_digits q \<noteq> 0 \<longrightarrow>
               (action scenario_order_row = ''buy'' \<longrightarrow> quantity scenario_order_row < 0))"
    by auto
  then have "\<bar>quantity scenario_order_row\<bar> = 5 \<and> quantity scenario_order_row < 0"
    using d n by (auto simp: scenario_order_row_def)
  with d n scenario_extract_orders show ?thesis by simp
qed

theorem C3_inner_join_cardinality_witness:
  "\<exists>merged. extract_transactions duplicate_rows = Inr merged
     \<and> length (filter (\<lambda>t. trace_id t = ''T1'') merged) = 6
     \<and> length (filter (\<lambda>t. trace_id t = ''T2'') merged) = 0"
proof -
  have fits: "int (int_of_digits ''5'') \<le> int64_max"
    by (simp add: int_of_digits_def int64_max_def)
  have h: "\<forall>l \<in> set duplicate_rows. \<forall>a k q. message_type l = ''ORDER''
             \<longrightarrow> order_search (details l) = Some (a, k, q)
             \<longrightarrow> int (int_of_digits q) \<le> int64_max"
    using fits unfolding duplicate_rows_def
    by (simp del: order_search.simps add: scenario_order_search)
  from C3_inner_join_cardinality [OF h] obtain merged where
    m: "extract_transactions duplicate_rows = Inr merged"
    and c: "\<And>c. length (filter (\<lambda>t. trace_id t = c) merged) =
          length (filter (\<lambda>l. message_type l = ''ORDER'' \<and> order_search (details l) \<noteq> None
                            \<and> trace_id l = c) duplicate_rows)
          * length (filter (\<lambda>l. message_type l = ''TRANSACTION'' \<and> trace_id l = c) duplicate_rows)"
    by blast
  have "length (filter (\<lambda>t. trace_id t = ''T1'') merged) = 6"
    unfolding c duplicate_rows_def
    by (simp del: order_search.simps add: scenario_order_search)
  moreover have "length (filter (\<lambda>t. trace_id t = ''T2'') merged) = 0"
    unfolding c duplicate_rows_def
    by (simp del: order_search.simps add: scenario_order_search)
  ultimately show ?thesis
    using m by blast
qed

lemma in_two_enriched:
  "scenario_enriched \<in> set [scenario_enriched, early_enriched]"
  "early_enriched \<in> set [scenario_enriched, early_enriched]"
  by simp_all

lemma two_enrich:
  "enrich_transactions (*) [early_tx, scenario_tx] (Frame scenario_catalog) (Frame scenario_prices) =
     Inr [scenario_enriched, early_enriched]"
  by (simp add: enrich_transactions_def left_merge_def scenario_catalog_def scenario_tx_def
      early_tx_def early_enriched_def
      scenario_prices_def scenario_enriched_def merge_asof_def time_key_def na_last_def
      asof_backward_def eligible_def attach_price_def sort_by_def derive_def iso_week_2024_3_1
      to_period_Q_def dt_year_def dt_month_def Let_def final_le_def desc_na_last_def)

theorem C1_asof_backward_witness:
  "enrich_transactions (*) [early_tx, scenario_tx] (Frame scenario_catalog) (Frame scenario_prices) =
     Inr [scenario_enriched, early_enriched]
   \<and> market_price scenario_enriched = Some 24
   \<and> (\<exists>p \<in> set scenario_prices. price_sku p = Some ''WINE-OPU-001''
        \<and> quote_time p = Some (2024, 3, 1, 9, 0, 0, 0) \<and> price_usd p = Some 24)
   \<and> market_price early_enriched = None"
proof -
  from C1_asof_backward [OF two_enrich in_two_enriched(1)]
  obtain ts where a: "timestamp (tx scenario_enriched) = Some ts"
    and b: "\<forall>v. market_price scenario_enriched = Some v \<longrightarrow>
          (\<exists>p \<in> set scenario_prices. \<exists>pt. price_sku p = Some (sku (tx scenario_enriched))
             \<and> quote_time p = Some pt \<and> price_usd p = Some v
             \<and> price_time scenario_enriched = Some pt \<and> pt \<le> ts
             \<and> (\<forall>p' \<in> set scenario_prices. \<forall>pt'. price_sku p' = Some (sku (tx scenario_enriched))
                   \<longrightarrow> quote_time p' = Some pt' \<longrightarrow> pt' \<le> ts \<longrightarrow> pt' \<le> pt))"
    by blast
  have m: "market_price scenario_enriched = Some 24"
    by (simp add: scenario_enriched_def)
  from b m obtain p pt where p: "p \<in> set scenario_prices"
    "price_sku p = Some (sku (tx scenario_enriched))" "quote_time p = Some pt"
    "price_usd p = Some 24" "price_time scenario_enriched = Some pt"
    by blast
  have c: "\<exists>p \<in> set scenario_prices. price_sku p = Some ''WINE-OPU-001''
        \<and> quote_time p = Some (2024, 3, 1, 9, 0, 0, 0) \<and> price_usd p = Some 24"
    using p by (intro bexI [of _ p]) (simp_all add: scenario_enriched_def scenario_tx_def)
  from C1_asof_backward [OF two_enrich in_two_enriched(2)]
  obtain ts' where a': "timestamp (tx early_enriched) = Some ts'"
    and b': "(\<forall>p \<in> set scenario_prices. \<forall>pt. price_sku p = Some (sku (tx early_enriched))
            \<longrightarrow> quote_time p = Some pt \<longrightarrow> \<not> pt \<le> ts')
          \<longrightarrow> market_price early_enriched = None \<and> price_time early_enriched = None"
    by blast
  from a' have "ts' = (2024, 3, 1, 8, 0, 0, 0)"
    by (simp add: early_enriched_def early_tx_def)
  with b' have "market_price early_enriched = None"
    by (simp add: scenario_prices_def)
  with two_enrich m c show ?thesis by simp
qed

lemma quarter_label_2024_1: "quarter_label (2024, Suc 0) = ''2024Q1''"
  by code_simp

theorem C7_derived_fields_witness:
  "enrich_transactions (*) [early_tx, scenario_tx] (Frame scenario_catalog) (Frame scenario_prices) =
     Inr [scenario_enriched, early_enriched]
   \<and> quantity (tx scenario_enriched) = - 5 \<and> market_price scenario_enriched = Some 24
   \<and> transaction_value scenario_enriched = Some (- 120)
   \<and> year scenario_enriched = 2024
   \<and> quarter_label (quarter scenario_enriched) = ''2024Q1''
   \<and> week scenario_enriched = 9
   \<and> market_price early_enriched = None \<and> transaction_value early_enriched = None"
proof -
  from C7_derived_fields [OF two_enrich in_two_enriched(1)]
  obtain ts where a: "timestamp (tx scenario_enriched) = Some ts"
    and v: "transaction_value scenario_enriched =
         (case market_price scenario_enriched of None \<Rightarrow> None
          | Some p \<Rightarrow> Some (quantity (tx scenario_enriched) * p))"
    and y: "year scenario_enriched = dt_year ts"
    and q: "quarter_label (quarter scenario_enriched) =
              show_nat (dt_year ts) @ ''Q'' @ show_nat ((dt_month ts - 1) div 3 + 1)"
    and w: "week scenario_enriched = iso_week ts"
    by blast
  from a have ts: "ts = (2024, 3, Suc 0, 10, 0, 0, 0)"
    by (simp add: scenario_enriched_def scenario_tx_def)
  have f: "quantity (tx scenario_enriched) = - 5" "market_price scenario_enriched = Some 24"
    by (simp_all add: scenario_enriched_def scenario_tx_def)
  have 1: "transaction_value scenario_enriched = Some (- 120)"
    using v f by simp
  have 2: "year scenario_enriched = 2024"
    using y ts by (simp add: dt_year_def)
  have 3: "quarter_label (quarter scenario_enriched) = ''2024Q1''"
    using q quarter_label_2024_1 unfolding ts
    by (simp add: dt_year_def dt_month_def quarter_label_def)
  have 4: "week scenario_enriched = 9"
    using w ts iso_week_2024_3_1 by simp
  from C7_derived_fields [OF two_enrich in_two_enriched(2)]
  have v': "transaction_value early_enriched =
         (case market_price early_enriched of None \<Rightarrow> None
          | Some p \<Rightarrow> Some (quantity (tx early_enriched) * p))"
    by blast
  have n: "market_price early_enriched = None"
    by (simp add: early_enriched_def)
  with v' have 5: "transaction_value early_enriched = None"
    by simp
  from two_enrich f 1 2 3 4 n 5 show ?thesis by simp
qed

theorem C10_derived_sku_counterexample:
  "derive_sku (Some (''A'' @ [NL] @ ''B-1'')) = None
   \<and> derive_sku (Some (''ABC-12'' @ [NL])) = Some ''ABC''"
  by code_simp

theorem C10_derived_sku_witness:
  "NL \<notin> set ''WINE-OPU-001-17''
   \<and> derive_sku (Some ''WINE-OPU-001-17'') = Some ''WINE-OPU-001''
   \<and> read_market_prices [Some scenario_quotes] = Frame scenario_prices
   \<and> asof_backward scenario_prices ''WINE-OPU-001'' (2024, 3, 1, 10, 0, 0, 0)
       = Some (scenario_prices ! 0)
   \<and> price_sku (scenario_prices ! 0) = derive_sku (quote_id (scenario_prices ! 0))
   \<and> price_sku (scenario_prices ! 0) = Some ''WINE-OPU-001''"
proof -
  have nl: "NL \<notin> set ''WINE-OPU-001-17''"
    by simp
  have d: "\<exists>ds. ds \<noteq> [] \<and> list_all is_digit ds \<and> ''WINE-OPU-001-17'' = ''WINE-OPU-001'' @ ''-'' @ ds"
    by (intro exI [of _ "''17''"]) (simp add: is_digit_def)
  have a: "asof_backward scenario_prices ''WINE-OPU-001'' (2024, 3, 1, 10, 0, 0, 0)
       = Some (scenario_prices ! 0)"
    by (simp add: asof_backward_def scenario_prices_def eligible_def)
  have m: "scenario_prices ! 0 \<in> set scenario_prices"
    by (simp add: scenario_prices_def)
  note c = C10_derived_sku [of "''WINE-OPU-001-17''" "''WINE-OPU-001''" "[Some scenario_quotes]"
      scenario_prices scenario_prices "''WINE-OPU-001''" "(2024, 3, 1, 10, 0, 0, 0)"
      "scenario_prices ! 0"]
  from c nl d have 1: "derive_sku (Some ''WINE-OPU-001-17'') = Some ''WINE-OPU-001''"
    by blast
  from c scenario_read_prices m
  have 2: "price_sku (scenario_prices ! 0) = derive_sku (quote_id (scenario_prices ! 0))"
    by blast
  from c a have 3: "price_sku (scenario_prices ! 0) = Some ''WINE-OPU-001''"
    by blast
  from nl 1 scenario_read_prices a 2 3 show ?thesis by blast
qed

text \<open>
  C8 (missing inputs). With no catalog file \<open>read_skus\<close> returns the frame with no
  column, and with no price file, or one that cannot be read, \<open>read_market_prices\<close>
  does. \<open>enrich_transactions\<close> then raises KeyError on the column \<^verbatim>\<open>sku\<close> (the merge at
  line 215, the sort at line 227): the run ends with no enriched row, where the claim has
  it continue with null metadata or null market prices.
\<close>

theorem C8_missing_inputs_raise:
  "read_skus (NoFile :: string sku_source) = Inr EmptyFrame
   \<and> pipeline (*) incomplete_log (NoFile :: string sku_source) [Some scenario_quotes]
       = Inl (KeyError ''sku'')
   \<and> read_market_prices ([] :: int quote_row list option list) = EmptyFrame
   \<and> read_market_prices [None :: int quote_row list option] = EmptyFrame
   \<and> pipeline (*) incomplete_log (Json scenario_catalog) ([] :: int quote_row list option list)
       = Inl (KeyError ''sku'')
   \<and> pipeline (*) incomplete_log (Json scenario_catalog) [None :: int quote_row list option]
       = Inl (KeyError ''sku'')"
  by (simp add: pipeline_def incomplete_log_rows scenario_extract read_skus_def
      read_market_prices_def enrich_transactions_def scenario_catalog_def Let_def)

lemma three_enrich:
  "enrich_transactions (*) [early_tx, scenario_tx, late_tx] (Frame scenario_catalog)
      (Frame scenario_prices) =
     Inr [late_enriched, scenario_enriched, early_enriched]"
  by (simp add: enrich_transactions_def left_merge_def scenario_catalog_def scenario_tx_def
      early_tx_def early_enriched_def late_tx_def late_enriched_def
      scenario_prices_def scenario_enriched_def merge_asof_def time_key_def na_last_def
      asof_backward_def eligible_def attach_price_def sort_by_def derive_def iso_week_2024_3_1
      to_period_Q_def dt_year_def dt_month_def Let_def final_le_def desc_na_last_def)

theorem C9_output_order_counterexample:
  "enrich_transactions (*) [early_tx, scenario_tx, late_tx] (Frame scenario_catalog)
      (Frame scenario_prices) =
     Inr [late_enriched, scenario_enriched, early_enriched]
   \<and> trace_id (tx scenario_enriched) = ''T1'' \<and> trace_id (tx early_enriched) = ''T2''
   \<and> \<not> trace_id (tx early_enriched) \<le> trace_id (tx scenario_enriched)"
  using three_enrich
  by (simp add: scenario_enriched_def early_enriched_def scenario_tx_def early_tx_def)

theorem C9_output_order_witness:
  "enrich_transactions (*) [early_tx, scenario_tx, late_tx] (Frame scenario_catalog)
      (Frame scenario_prices) =
     Inr [late_enriched, scenario_enriched, early_enriched]
   \<and> trace_id (tx late_enriched) = trace_id (tx scenario_enriched)
   \<and> price_time scenario_enriched \<noteq> None
   \<and> (\<exists>a b. price_time late_enriched = Some a \<and> price_time scenario_enriched = Some b \<and> b \<le> a)
   \<and> trace_id (tx scenario_enriched) \<le> trace_id (tx early_enriched)"
proof -
  have e: "trace_id (tx late_enriched) = trace_id (tx scenario_enriched)"
    by (simp add: late_enriched_def scenario_enriched_def late_tx_def scenario_tx_def)
  have n: "price_time scenario_enriched \<noteq> None"
    by (simp add: scenario_enriched_def)
  from C9_output_order [OF three_enrich, of 0 1] e n
  have 1: "\<exists>a b. price_time late_enriched = Some a \<and> price_time scenario_enriched = Some b \<and> b \<le> a"
    by simp
  from C9_output_order [OF three_enrich, of 1 2]
  have 2: "trace_id (tx scenario_enriched) \<le> trace_id (tx early_enriched)"
    by simp
  from three_enrich e n 1 2 show ?thesis by blast
qed

end
